theory Spec2Isabelle
  imports Complex_Main
begin

section \<open>Text\<close>

text \<open>
  Python strings are modelled as their UTF-8 bytes. The pictographs of the user interface
  are therefore byte sequences; \<open>apostrophe\<close> is the quote character that cannot be
  written inside a string literal.
\<close>

definition apostrophe :: string where
  "apostrophe = [CHR 0x27]"

definition cross_mark :: string where
  "cross_mark = [CHR 0xE2, CHR 0x9D, CHR 0x8C]"

definition clipboard :: string where
  "clipboard = [CHR 0xF0, CHR 0x9F, CHR 0x93, CHR 0x8B]"

definition pie :: string where
  "pie = [CHR 0xF0, CHR 0x9F, CHR 0xA5, CHR 0xA7]"

definition bar_chart_sign :: string where
  "bar_chart_sign = [CHR 0xF0, CHR 0x9F, CHR 0x93, CHR 0x8A]"

definition bookmark_tabs :: string where
  "bookmark_tabs = [CHR 0xF0, CHR 0x9F, CHR 0x93, CHR 0x91]"

definition en_dash :: string where
  "en_dash = [CHR 0xE2, CHR 0x80, CHR 0x93]"

text \<open>\<open>str.strip()\<close>: the ASCII characters for which \<open>str.isspace\<close> holds are removed at both ends.\<close>

definition is_space :: "char \<Rightarrow> bool" where
  "is_space c = (c \<in> set [CHR 0x20, CHR 0x09, CHR 0x0A, CHR 0x0B, CHR 0x0C, CHR 0x0D,
                            CHR 0x1C, CHR 0x1D, CHR 0x1E, CHR 0x1F])"

definition strip :: "string \<Rightarrow> string" where
  "strip s = rev (dropWhile is_space (rev (dropWhile is_space s)))"

text \<open>\<open>str.lower()\<close> on the ASCII letters; every other byte is left as it is.\<close>

definition lower_char :: "char \<Rightarrow> char" where
  "lower_char c =
     (case map_of (zip ''ABCDEFGHIJKLMNOPQRSTUVWXYZ'' ''abcdefghijklmnopqrstuvwxyz'') c of
        None \<Rightarrow> c
      | Some d \<Rightarrow> d)"

definition lower :: "string \<Rightarrow> string" where
  "lower s = map lower_char s"

text \<open>\<open>name.endswith(suffix)\<close>.\<close>

definition endswith :: "string \<Rightarrow> string \<Rightarrow> bool" where
  "endswith s suf = (length suf \<le> length s \<and> drop (length s - length suf) s = suf)"

text \<open>\<open>str(n)\<close> for an integer: decimal digits, with a minus sign below zero.\<close>

definition digit_char :: "nat \<Rightarrow> char" where
  "digit_char d = ''0123456789'' ! d"

fun str_nat :: "nat \<Rightarrow> string" where
  "str_nat n = (if n < 10 then [digit_char n] else str_nat (n div 10) @ [digit_char (n mod 10)])"

declare str_nat.simps [simp del]

definition str_int :: "int \<Rightarrow> string" where
  "str_int i = (if i < 0 then CHR ''-'' # str_nat (nat (- i)) else str_nat (nat i))"

section \<open>Tables\<close>

text \<open>
  A cell of a pandas table: a missing value (NaN or None), a string, an integer, or a float.
  A float is modelled as the rational number it stands for, so the arithmetic on
  probabilities below is exact.
\<close>

datatype cell = Missing | Txt string | IntV int | FloatV rat

text \<open>
  A DataFrame: the row index and the columns in order, each a label with its values.
  Labels may repeat (renaming a column can produce a second column of the same label).
\<close>

record frame =
  index :: "nat list"
  cols :: "(string \<times> cell list) list"

definition labels :: "frame \<Rightarrow> string list" where
  "labels df = map fst (cols df)"

text \<open>\<open>len(df)\<close>.\<close>

definition nrows :: "frame \<Rightarrow> nat" where
  "nrows df = length (index df)"

text \<open>Every column has one value per row of the index.\<close>

definition rect :: "frame \<Rightarrow> bool" where
  "rect df = list_all (\<lambda>c. length (snd c) = nrows df) (cols df)"

text \<open>What pandas and the libraries below raise; \<open>exn_str\<close> is \<open>str(e)\<close>.\<close>

datatype exn = KeyError string | ValueError string | Raised string

fun exn_str :: "exn \<Rightarrow> string" where
  "exn_str (KeyError k) = apostrophe @ k @ apostrophe"
| "exn_str (ValueError m) = m"
| "exn_str (Raised m) = m"

text \<open>
  \<open>df[key]\<close> for a single label. \<open>values_of\<close> is the column found, \<open>column\<close> raises KeyError
  when there is none. Where a label occurs more than once pandas returns a sub-table
  instead of a column; the reads of the script are of Details, Logical\_Issue and
  bug\_type, and the theorems about them assume tables whose labels are distinct.
\<close>

definition values_of :: "string \<Rightarrow> frame \<Rightarrow> cell list option" where
  "values_of key df = (case filter (\<lambda>c. fst c = key) (cols df) of [] \<Rightarrow> None | c # _ \<Rightarrow> Some (snd c))"

definition column :: "string \<Rightarrow> frame \<Rightarrow> exn + cell list" where
  "column key df = (case values_of key df of None \<Rightarrow> Inl (KeyError key) | Some vs \<Rightarrow> Inr vs)"

text \<open>
  \<open>df[key] = values\<close>: an existing label keeps its place and gets the new values (every
  column of that label does), a new label is appended as the last column.
\<close>

definition assign :: "string \<Rightarrow> cell list \<Rightarrow> frame \<Rightarrow> frame" where
  "assign key vs df =
     (if key \<in> set (labels df)
      then df\<lparr>cols := map (\<lambda>c. if fst c = key then (key, vs) else c) (cols df)\<rparr>
      else df\<lparr>cols := cols df @ [(key, vs)]\<rparr>)"

text \<open>Assigning a list or an array checks its length against the index first.\<close>

definition length_mismatch :: "nat \<Rightarrow> nat \<Rightarrow> exn" where
  "length_mismatch k n =
     ValueError (''Length of values ('' @ str_nat k @ '') does not match length of index (''
                 @ str_nat n @ '')'')"

definition set_list :: "string \<Rightarrow> cell list \<Rightarrow> frame \<Rightarrow> exn + frame" where
  "set_list key vs df =
     (if length vs \<noteq> nrows df then Inl (length_mismatch (length vs) (nrows df))
      else Inr (assign key vs df))"

text \<open>Selecting rows by a boolean mask keeps the rows, and their index labels, in order.\<close>

definition keep :: "bool list \<Rightarrow> 'a list \<Rightarrow> 'a list" where
  "keep bs xs = map snd (filter fst (zip bs xs))"

definition take_rows :: "bool list \<Rightarrow> frame \<Rightarrow> frame" where
  "take_rows bs df =
     \<lparr>index = keep bs (index df), cols = map (\<lambda>c. (fst c, keep bs (snd c))) (cols df)\<rparr>"

text \<open>
  \<open>df.dropna(subset=[key])\<close>: a row stays when none of its cells under the label is missing.
\<close>

definition notna_mask :: "string \<Rightarrow> frame \<Rightarrow> bool list" where
  "notna_mask key df =
     map (\<lambda>i. list_all (\<lambda>c. fst c = key \<longrightarrow> snd c ! i \<noteq> Missing) (cols df)) [0..<nrows df]"

definition dropna :: "string \<Rightarrow> frame \<Rightarrow> frame" where
  "dropna key df = take_rows (notna_mask key df) df"

text \<open>
  \<open>str(v)\<close> of a cell and \<open>astype(str)\<close> of a column. The text of a float is its decimal
  expansion to at most 17 places, without trailing zeros.
\<close>

fun frac_digits :: "nat \<Rightarrow> rat \<Rightarrow> string" where
  "frac_digits 0 q = []"
| "frac_digits (Suc k) q =
     (if q = 0 then []
      else let d = nat \<lfloor>q * 10\<rfloor> in digit_char d # frac_digits k (q * 10 - of_nat d))"

definition str_float :: "rat \<Rightarrow> string" where
  "str_float q =
     (let a = \<bar>q\<bar>; w = \<lfloor>a\<rfloor>; f = frac_digits 17 (a - of_int w)
      in (if q < 0 then ''-'' else []) @ str_nat (nat w) @ ''.'' @ (if f = [] then ''0'' else f))"

fun str_of :: "cell \<Rightarrow> string" where
  "str_of Missing = ''nan''"
| "str_of (Txt s) = s"
| "str_of (IntV i) = str_int i"
| "str_of (FloatV q) = str_float q"

definition astype_str :: "string \<Rightarrow> frame \<Rightarrow> frame" where
  "astype_str key df =
     df\<lparr>cols := map (\<lambda>c. if fst c = key then (key, map (Txt \<circ> str_of) (snd c)) else c) (cols df)\<rparr>"

text \<open>\<open>df.rename(columns={old: new})\<close>.\<close>

definition rename :: "string \<Rightarrow> string \<Rightarrow> frame \<Rightarrow> frame" where
  "rename old new df = df\<lparr>cols := map (\<lambda>c. if fst c = old then (new, snd c) else c) (cols df)\<rparr>"

text \<open>
  \<open>series.value_counts()\<close>: the number of occurrences of every value that is not missing.
  The values are listed in the order of their first occurrence; pandas then sorts the
  entries by falling count, which changes the order of the entries only.
\<close>

definition value_counts :: "cell list \<Rightarrow> (cell \<times> nat) list" where
  "value_counts xs =
     map (\<lambda>v. (v, count_list xs v)) (rev (remdups (rev (filter (\<lambda>x. x \<noteq> Missing) xs))))"

text \<open>
  \<open>df[keys]\<close> for a list of labels: for each key in turn, every column of that label;
  KeyError when a key labels no column.
\<close>

definition select :: "string list \<Rightarrow> frame \<Rightarrow> exn + frame" where
  "select keys df =
     (case filter (\<lambda>k. k \<notin> set (labels df)) keys of
        [] \<Rightarrow> Inr (df\<lparr>cols := concat (map (\<lambda>k. filter (\<lambda>c. fst c = k) (cols df)) keys)\<rparr>)
      | k # _ \<Rightarrow> Inl (KeyError k))"

text \<open>\<open>df.reset_index(drop=True)\<close>.\<close>

definition reset_index :: "frame \<Rightarrow> frame" where
  "reset_index df = df\<lparr>index := [0..<nrows df]\<rparr>"

text \<open>\<open>df.columns = df.columns.str.strip()\<close>.\<close>

definition strip_columns :: "frame \<Rightarrow> frame" where
  "strip_columns df = df\<lparr>cols := map (\<lambda>c. (strip (fst c), snd c)) (cols df)\<rparr>"

section \<open>The upload and the classifier\<close>

text \<open>
  An uploaded file, as the script sees it: its name and what each pandas reader returns
  on it (the table parsed, or the exception raised): \<open>pd.read_csv(file)\<close>,
  \<open>pd.read_excel(file, engine="openpyxl")\<close> and
  \<open>pd.read_excel(file, skiprows=2, engine="openpyxl")\<close>.
\<close>

record upload =
  name :: string
  read_csv :: "exn + frame"
  read_excel :: "exn + frame"
  read_excel_skip2 :: "exn + frame"

text \<open>
  The two artefacts of \<open>load_model()\<close>: the vectorizer's \<open>transform\<close> and the model's
  \<open>predict\<close> and \<open>predict_proba\<close>, each returning its result or the exception it raises.
  A failure of \<open>load_model\<close> itself shows as a \<open>transform\<close> that raises. The predictions
  are an array of numeric class codes or an array of string labels.
\<close>

datatype preds = Codes "int list" | Labels "string list"

record 'x classifier =
  transform :: "string list \<Rightarrow> exn + 'x"
  predict :: "'x \<Rightarrow> exn + preds"
  predict_proba :: "'x \<Rightarrow> exn + rat list list"

section \<open>What the page shows\<close>

text \<open>
  The calls into Streamlit, in the order in which the script makes them, each with what it
  is handed: \<open>st.write\<close>, \<open>st.error\<close>, \<open>st.markdown\<close>, \<open>st.pyplot\<close> (the counts
  the pie is drawn from), \<open>st.bar_chart\<close>, \<open>st.subheader\<close> and \<open>st.dataframe\<close>.
  Drawing itself is Streamlit's and matplotlib's and is taken to return normally.
\<close>

datatype event =
    Write string "string list"
  | Error string
  | Markdown string
  | Pyplot "(cell \<times> nat) list"
  | BarChart "(cell \<times> nat) list"
  | Subheader string
  | Dataframe frame

definition columns_found :: string where
  "columns_found = clipboard @ '' Columns found in your file:''"

definition missing_details :: string where
  "missing_details =
     cross_mark @ '' The uploaded file must contain a '' @ apostrophe @ ''Details'' @ apostrophe
       @ '' column.''"

definition caught :: "exn \<Rightarrow> string" where
  "caught e = cross_mark @ '' Error: '' @ exn_str e"

definition pie_heading :: string where
  "pie_heading = ''### '' @ pie @ '' Pie Chart '' @ en_dash @ '' Bug Origin by Type''"

definition bar_heading :: string where
  "bar_heading = ''### '' @ bar_chart_sign @ '' Bar Chart '' @ en_dash @ '' Logic-Level Bugs by Category''"

definition table_heading :: string where
  "table_heading = bookmark_tabs @ '' Table '' @ en_dash @ '' Bug Classification Results''"

section \<open>The pipeline of app.py\<close>

text \<open>Lines 23 to 33: read the file by its extension, trim the labels, retry once.\<close>

definition load :: "upload \<Rightarrow> exn + frame" where
  "load u =
     (case (if endswith (name u) ''.csv'' then read_csv u else read_excel u) of
        Inl e \<Rightarrow> Inl e
      | Inr df0 \<Rightarrow>
          let df = strip_columns df0 in
          if ''Details'' \<notin> set (labels df)
          then (case read_excel_skip2 u of
                  Inl e \<Rightarrow> Inl e
                | Inr df1 \<Rightarrow> Inr (strip_columns df1))
          else Inr df)"

text \<open>Lines 44 to 47: the identifier column.\<close>

definition derive_bug_id :: "frame \<Rightarrow> frame" where
  "derive_bug_id df =
     (if ''S.No'' \<in> set (labels df) then rename ''S.No'' ''Bug ID'' df
      else if ''Bug ID'' \<notin> set (labels df)
      then assign ''Bug ID'' (map IntV [1..int (nrows df)]) df
      else df)"

text \<open>Lines 40 to 47.\<close>

definition normalize :: "frame \<Rightarrow> frame" where
  "normalize df = derive_bug_id (astype_str ''Details'' (dropna ''Details'' df))"

text \<open>Lines 56 to 60: the label of a class code.\<close>

definition category_map :: "int \<Rightarrow> string option" where
  "category_map = [0 \<mapsto> ''UI'', 1 \<mapsto> ''API'', 2 \<mapsto> ''DB'', 3 \<mapsto> ''Server'', 4 \<mapsto> ''Other'']"

fun predicted_category :: "preds \<Rightarrow> string list" where
  "predicted_category (Codes ps) =
     map (\<lambda>p. case category_map p of Some l \<Rightarrow> l | None \<Rightarrow> str_int p) ps"
| "predicted_category (Labels ls) = ls"

text \<open>
  Line 53, \<open>.max(axis=1)\<close>: the largest entry of every row; numpy raises on a row without
  entries.
\<close>

definition row_max :: "rat list \<Rightarrow> exn + rat" where
  "row_max r =
     (case r of
        [] \<Rightarrow> Inl (ValueError ''zero-size array to reduction operation maximum which has no identity'')
      | x # xs \<Rightarrow> Inr (fold max xs x))"

fun max_axis1 :: "rat list list \<Rightarrow> exn + rat list" where
  "max_axis1 [] = Inr []"
| "max_axis1 (r # rs) =
     (case row_max r of
        Inl e \<Rightarrow> Inl e
      | Inr m \<Rightarrow> (case max_axis1 rs of Inl e \<Rightarrow> Inl e | Inr ms \<Rightarrow> Inr (m # ms)))"

text \<open>Line 62, \<open>round(p, 2)\<close>: to the nearest hundredth, a tie to the even neighbour.\<close>

definition round_half_even :: "rat \<Rightarrow> int" where
  "round_half_even q =
     (let f = \<lfloor>q\<rfloor>; r = q - of_int f
      in if r < 1 / 2 then f else if 1 / 2 < r then f + 1 else if even f then f else f + 1)"

definition round2 :: "rat \<Rightarrow> rat" where
  "round2 p = of_int (round_half_even (p * 100)) / 100"

text \<open>Lines 65 to 68.\<close>

definition logic_level_issue :: "frame \<Rightarrow> frame" where
  "logic_level_issue df =
     (case values_of ''Logical_Issue'' df of
        Some li \<Rightarrow> assign ''Logic-level Issue'' li df
      | None \<Rightarrow> assign ''Logic-level Issue'' (replicate (nrows df) (Txt ''N/A'')) df)"

text \<open>Lines 50 to 68: predictions, confidence and the logic-level column.\<close>

definition classify :: "'x classifier \<Rightarrow> frame \<Rightarrow> exn + frame" where
  "classify clf df =
     (case column ''Details'' df of Inl e \<Rightarrow> Inl e | Inr details \<Rightarrow>
     (case transform clf (map str_of details) of Inl e \<Rightarrow> Inl e | Inr X \<Rightarrow>
     (case predict clf X of Inl e \<Rightarrow> Inl e | Inr ps \<Rightarrow>
     (case predict_proba clf X of Inl e \<Rightarrow> Inl e | Inr P \<Rightarrow>
     (case max_axis1 P of Inl e \<Rightarrow> Inl e | Inr probs \<Rightarrow>
     (case set_list ''Predicted Category'' (map Txt (predicted_category ps)) df of
        Inl e \<Rightarrow> Inl e | Inr df1 \<Rightarrow>
     (case set_list ''Confidence Score'' (map (FloatV \<circ> round2) probs) df1 of
        Inl e \<Rightarrow> Inl e | Inr df2 \<Rightarrow>
      Inr (logic_level_issue df2))))))))"

text \<open>
  Lines 70 to 101: the two charts and the table. The result is what was shown and the
  exception that ended the stage, if one did.
\<close>

definition table_cols :: "string list" where
  "table_cols = [''Bug ID'', ''Details'', ''Predicted Category'', ''Logic-level Issue'', ''Confidence Score'']"

definition is_yes :: "cell \<Rightarrow> bool" where
  "is_yes c = (lower (str_of c) = ''yes'')"

definition report :: "frame \<Rightarrow> event list \<times> exn option" where
  "report df =
     (case column ''bug_type'' df of
        Inl e \<Rightarrow> ([Markdown pie_heading], Some e)
      | Inr bug_type \<Rightarrow>
          let shown1 = [Markdown pie_heading, Pyplot (value_counts bug_type), Markdown bar_heading] in
          (case column ''Logical_Issue'' df of
             Inl e \<Rightarrow> (shown1, Some e)
           | Inr logical \<Rightarrow>
               let logic_bugs = take_rows (map is_yes logical) df in
               (case column ''bug_type'' logic_bugs of
                  Inl e \<Rightarrow> (shown1, Some e)
                | Inr logic_types \<Rightarrow>
                    let shown2 = shown1 @ [BarChart (value_counts logic_types), Subheader table_heading] in
                    (case select table_cols df of
                       Inl e \<Rightarrow> (shown2, Some e)
                     | Inr t \<Rightarrow> (shown2 @ [Dataframe (reset_index t)], None)))))"

text \<open>Lines 22 to 101, the body of the \<open>try\<close>.\<close>

definition process :: "'x classifier \<Rightarrow> upload \<Rightarrow> event list \<times> exn option" where
  "process clf u =
     (case load u of
        Inl e \<Rightarrow> ([], Some e)
      | Inr df \<Rightarrow>
          let shown = [Write columns_found (labels df)] in
          if ''Details'' \<notin> set (labels df) then (shown @ [Error missing_details], None)
          else (case classify clf (normalize df) of
                  Inl e \<Rightarrow> (shown, Some e)
                | Inr df' \<Rightarrow> (case report df' of (shown', r) \<Rightarrow> (shown @ shown', r))))"

text \<open>Lines 20 to 104: the handler turns an exception into one more message.\<close>

definition handle_upload :: "'x classifier \<Rightarrow> upload \<Rightarrow> event list" where
  "handle_upload clf u =
     (case process clf u of
        (shown, None) \<Rightarrow> shown
      | (shown, Some e) \<Rightarrow> shown @ [Error (caught e)])"

definition app :: "'x classifier \<Rightarrow> upload option \<Rightarrow> event list" where
  "app clf uploaded_file = (case uploaded_file of None \<Rightarrow> [] | Some u \<Rightarrow> handle_upload clf u)"

section \<open>Notions for stating the properties\<close>

text \<open>
  The values \<open>xs\<close> of the rows whose Details cell, in \<open>details\<close>, is not missing, in the
  order of the rows.
\<close>

definition surviving :: "cell list \<Rightarrow> 'a list \<Rightarrow> 'a list" where
  "surviving details xs = map snd (filter (\<lambda>p. fst p \<noteq> Missing) (zip details xs))"

text \<open>
  A table as the pandas readers deliver it, with the labels trimmed: one value per row in
  every column, and no label twice.
\<close>

definition well_formed :: "frame \<Rightarrow> bool" where
  "well_formed df = (rect df \<and> distinct (labels df))"

text \<open>All columns of a label, in the order of the table.\<close>

definition cols_of :: "string \<Rightarrow> frame \<Rightarrow> (string \<times> cell list) list" where
  "cols_of key df = filter (\<lambda>c. fst c = key) (cols df)"

text \<open>At most one column of a label.\<close>

definition single :: "string \<Rightarrow> frame \<Rightarrow> bool" where
  "single k df = (length (cols_of k df) \<le> 1)"

text \<open>The working table after lines 50 to 68, for predictions \<open>ps\<close> and probabilities \<open>P\<close>.\<close>

definition classified :: "preds \<Rightarrow> rat list list \<Rightarrow> frame \<Rightarrow> frame" where
  "classified ps P df =
     logic_level_issue
       (assign ''Confidence Score'' (map (\<lambda>r. FloatV (round2 (Max (set r)))) P)
          (assign ''Predicted Category'' (map Txt (predicted_category ps)) df))"

text \<open>The table handed to \<open>st.dataframe\<close>: the columns of the five labels, renumbered.\<close>

definition shown_table :: "frame \<Rightarrow> frame" where
  "shown_table df =
     \<lparr>index = [0..<nrows df],
      cols = cols_of ''Bug ID'' df @ cols_of ''Details'' df @ cols_of ''Predicted Category'' df
               @ cols_of ''Logic-level Issue'' df @ cols_of ''Confidence Score'' df\<rparr>"

section \<open>Sample inputs\<close>

text \<open>
  A classifier for the examples: it numbers the documents, predicts the class codes
  1, 4, 7, ... and gives every row two probabilities.
\<close>

definition demo_classifier :: "nat classifier" where
  "demo_classifier =
     \<lparr>transform = (\<lambda>docs. Inr (length docs)),
      predict = (\<lambda>n. Inr (Codes (map (\<lambda>i. 3 * int i + 1) [0..<n]))),
      predict_proba = (\<lambda>n. Inr (map (\<lambda>i. [of_nat i / 4 + 1 / 8, 3 / 10]) [0..<n]))\<rparr>"




text \<open>A workbook with a banner and no Details column, neither at the top nor in its third row.\<close>

definition banner_workbook :: upload where
  "banner_workbook =
     \<lparr>name = ''bugs.xlsx'',
      read_csv = Inl (Raised ''Error tokenizing data''),
      read_excel = Inr \<lparr>index = [0, 1, 2], cols = [(''Weekly report'', [Missing, Txt ''Summary '', Txt ''crash''])]\<rparr>,
      read_excel_skip2 = Inr \<lparr>index = [0], cols = [(''Summary '', [Txt ''crash''])]\<rparr>\<rparr>"

text \<open>
  A comma-separated file with the single column Summary. It is no workbook, so both
  workbook reads raise what openpyxl raises on a file that is not a zip archive.
\<close>

definition summary_csv :: upload where
  "summary_csv =
     \<lparr>name = ''bugs.csv'',
      read_csv = Inr \<lparr>index = [0], cols = [(''Summary'', [Txt ''crash on save''])]\<rparr>,
      read_excel = Inl (Raised ''File is not a zip file''),
      read_excel_skip2 = Inl (Raised ''File is not a zip file'')\<rparr>"



text \<open>A file without Logical\_Issue.\<close>

definition unflagged :: frame where
  "unflagged =
     \<lparr>index = [0, 1],
      cols = [(''Details'', [Txt ''500 on checkout'', Txt ''label overlaps'']),
              (''bug_type'', [Txt ''API'', Txt ''UI''])]\<rparr>"

definition unflagged_csv :: upload where
  "unflagged_csv =
     \<lparr>name = ''week12.csv'', read_csv = Inr unflagged,
      read_excel = Inl (Raised ''File is not a zip file''),
      read_excel_skip2 = Inl (Raised ''File is not a zip file'')\<rparr>"

text \<open>A workbook with a row without Details, a numeric Details cell and missing chart cells.\<close>

definition gapped :: frame where
  "gapped =
     \<lparr>index = [0, 1, 2, 3],
      cols = [(''Details'', [Txt ''login fails'', Missing, IntV 404, Txt ''typo in footer'']),
              (''bug_type'', [Txt ''API'', Txt ''UI'', Missing, Txt ''UI'']),
              (''Logical_Issue'', [Txt ''YES'', Txt ''no'', Txt ''yes'', Missing])]\<rparr>"

definition gapped_xlsx :: upload where
  "gapped_xlsx =
     \<lparr>name = ''report.xlsx'', read_csv = Inl (Raised ''Error tokenizing data''),
      read_excel = Inr gapped, read_excel_skip2 = Inr \<lparr>index = [], cols = []\<rparr>\<rparr>"

definition gapped_table :: frame where
  "gapped_table =
     \<lparr>index = [0, 1, 2],
      cols = [(''Bug ID'', [IntV 1, IntV 2, IntV 3]),
              (''Details'', [Txt ''login fails'', Txt ''404'', Txt ''typo in footer'']),
              (''Predicted Category'', [Txt ''API'', Txt ''Other'', Txt ''7'']),
              (''Logic-level Issue'', [Txt ''YES'', Txt ''yes'', Missing]),
              (''Confidence Score'', [FloatV (3 / 10), FloatV (19 / 50), FloatV (31 / 50)])]\<rparr>"

text \<open>A workbook that has both an S.No and a Bug ID column.\<close>

definition tracked :: frame where
  "tracked =
     \<lparr>index = [0, 1, 2],
      cols = [(''S.No'', [IntV 1, IntV 2, IntV 3]),
              (''Details'', [Txt ''crash on start'', Missing, Txt ''wrong total'']),
              (''Bug ID'', [Txt ''B-7'', Txt ''B-8'', Txt ''B-9'']),
              (''bug_type'', [Txt ''Server'', Txt ''UI'', Txt ''DB'']),
              (''Logical_Issue'', [Txt ''no'', Txt ''yes'', Txt ''Yes''])]\<rparr>"



section \<open>Auxiliary facts\<close>

lemma keep_notna: "keep (map (\<lambda>v. v \<noteq> Missing) d) xs = surviving d xs"
  by (induction d arbitrary: xs) (auto simp: keep_def surviving_def split: list.splits, (case_tac xs; simp)+)

lemma surviving_self: "surviving d d = filter (\<lambda>v. v \<noteq> Missing) d"
  by (induction d) (auto simp: surviving_def)

lemma length_surviving:
  "length xs = length d \<Longrightarrow> length (surviving d xs) = length (filter (\<lambda>v. v \<noteq> Missing) d)"
  by (induction d arbitrary: xs) (auto simp: surviving_def, (case_tac xs; simp)+)

lemma values_of_cols_of: "values_of key df = (case cols_of key df of [] \<Rightarrow> None | c # _ \<Rightarrow> Some (snd c))"
  by (simp add: values_of_def cols_of_def)

lemma values_of_None: "values_of key df = None \<longleftrightarrow> key \<notin> set (labels df)"
proof -
  have "values_of key df = None \<longleftrightarrow> filter (\<lambda>c. fst c = key) (cols df) = []"
    by (simp add: values_of_def split: list.splits)
  also have "\<dots> \<longleftrightarrow> key \<notin> set (labels df)"
    by (auto simp: filter_empty_conv labels_def)
  finally show ?thesis .
qed

lemma values_of_mem: "values_of key df = Some vs \<Longrightarrow> (key, vs) \<in> set (cols df)"
proof -
  assume "values_of key df = Some vs"
  then obtain c cs where f: "filter (\<lambda>c. fst c = key) (cols df) = c # cs" and v: "snd c = vs"
    by (auto simp: values_of_def split: list.splits)
  from f have "c \<in> set (filter (\<lambda>c. fst c = key) (cols df))" by simp
  then have "c \<in> set (cols df)" "fst c = key" by auto
  with v show ?thesis by (cases c) auto
qed

lemma distinct_filter_key:
  "distinct (map fst xs) \<Longrightarrow> (k, a) \<in> set xs \<Longrightarrow> filter (\<lambda>c. fst c = k) xs = [(k, a)]"
  by (induction xs) (auto simp: filter_empty_conv image_iff)

lemma cols_of_single:
  "distinct (labels df) \<Longrightarrow> values_of key df = Some vs \<Longrightarrow> cols_of key df = [(key, vs)]"
  unfolding cols_of_def labels_def by (rule distinct_filter_key) (auto dest: values_of_mem)

lemma notna_mask_single:
  assumes "well_formed df" and "values_of key df = Some d"
  shows "notna_mask key df = map (\<lambda>v. v \<noteq> Missing) d"
proof -
  have mem: "(key, d) \<in> set (cols df)" using assms(2) by (rule values_of_mem)
  have len: "length d = nrows df"
    using assms(1) mem by (auto simp: well_formed_def rect_def list_all_iff)
  have "list_all (\<lambda>c. fst c = key \<longrightarrow> snd c ! i \<noteq> Missing) (cols df) \<longleftrightarrow> d ! i \<noteq> Missing" for i
  proof -
    have "filter (\<lambda>c. fst c = key) (cols df) = [(key, d)]"
      using assms cols_of_single by (simp add: well_formed_def cols_of_def)
    then have "set (filter (\<lambda>c. fst c = key) (cols df)) = {(key, d)}" by simp
    then have "\<And>c. c \<in> set (cols df) \<and> fst c = key \<longleftrightarrow> c = (key, d)" by auto
    then show ?thesis unfolding list_all_iff by (metis snd_conv)
  qed
  then have "notna_mask key df = map (\<lambda>i. d ! i \<noteq> Missing) [0..<length d]"
    by (simp add: notna_mask_def len)
  also have "\<dots> = map (\<lambda>v. v \<noteq> Missing) d"
    by (rule nth_equalityI) auto
  finally show ?thesis .
qed

lemma labels_mem: "key \<in> set (labels df) \<longleftrightarrow> (\<exists>vs. values_of key df = Some vs)"
  using values_of_None [of key df] by auto

subsection \<open>Labels and row counts through the operations\<close>

lemma labels_take_rows [simp]: "labels (take_rows bs df) = labels df"
  by (simp add: labels_def take_rows_def comp_def)

lemma labels_astype_str [simp]: "labels (astype_str key df) = labels df"
  by (simp add: labels_def astype_str_def comp_def cong: map_cong)

lemma labels_assign:
  "labels (assign key vs df) = (if key \<in> set (labels df) then labels df else labels df @ [key])"
  by (auto simp: labels_def assign_def comp_def intro!: map_idI)

lemma labels_rename: "labels (rename old new df) = map (\<lambda>l. if l = old then new else l) (labels df)"
  by (simp add: labels_def rename_def comp_def if_distrib cong: if_cong)

lemma nrows_take_rows: "nrows (take_rows bs df) = length (keep bs (index df))"
  by (simp add: nrows_def take_rows_def)

lemma nrows_astype_str [simp]: "nrows (astype_str key df) = nrows df"
  by (simp add: nrows_def astype_str_def)

lemma nrows_assign [simp]: "nrows (assign key vs df) = nrows df"
  by (simp add: nrows_def assign_def)

lemma nrows_rename [simp]: "nrows (rename old new df) = nrows df"
  by (simp add: nrows_def rename_def)

lemma nrows_derive_bug_id [simp]: "nrows (derive_bug_id df) = nrows df"
  by (simp add: derive_bug_id_def)

lemma nrows_logic_level_issue [simp]: "nrows (logic_level_issue df) = nrows df"
  by (simp add: logic_level_issue_def split: option.splits)

subsection \<open>The columns of one label through the operations\<close>

lemma cols_of_take_rows:
  "cols_of k (take_rows bs df) = map (\<lambda>c. (fst c, keep bs (snd c))) (cols_of k df)"
  by (simp add: cols_of_def take_rows_def filter_map comp_def)

lemma filter_key_map:
  "filter (\<lambda>c. fst c = k) (map (\<lambda>c. if fst c = key then (key, f (snd c)) else c) xs) =
     (if k = key then map (\<lambda>c. (key, f (snd c))) (filter (\<lambda>c. fst c = k) xs)
      else filter (\<lambda>c. fst c = k) xs)"
  by (induction xs) auto

lemma cols_of_astype_str:
  "cols_of k (astype_str key df) =
     (if k = key then map (\<lambda>c. (key, map (Txt \<circ> str_of) (snd c))) (cols_of k df) else cols_of k df)"
  unfolding cols_of_def astype_str_def
  using filter_key_map [of k key "map (Txt \<circ> str_of)" "cols df"] by simp

lemma cols_of_assign:
  "cols_of k (assign key vs df) =
     (if k = key then (if key \<in> set (labels df) then map (\<lambda>c. (key, vs)) (cols_of k df) else [(key, vs)])
      else cols_of k df)"
proof (cases "key \<in> set (labels df)")
  case True
  then show ?thesis
    unfolding cols_of_def assign_def using filter_key_map [of k key "\<lambda>_. vs" "cols df"] by simp
next
  case False
  then have "filter (\<lambda>c. fst c = key) (cols df) = []"
    by (auto simp: filter_empty_conv labels_def)
  with False show ?thesis by (auto simp: cols_of_def assign_def)
qed

lemma filter_key_rename:
  "old \<noteq> new \<Longrightarrow>
   filter (\<lambda>c. fst c = k) (map (\<lambda>c. if fst c = old then (new, snd c) else c) xs) =
     (if k = new then map (\<lambda>c. (new, snd c)) (filter (\<lambda>c. fst c = old \<or> fst c = new) xs)
      else if k = old then []
      else filter (\<lambda>c. fst c = k) xs)"
  by (induction xs) auto

lemma cols_of_rename:
  "old \<noteq> new \<Longrightarrow>
   cols_of k (rename old new df) =
     (if k = new then map (\<lambda>c. (new, snd c)) (filter (\<lambda>c. fst c = old \<or> fst c = new) (cols df))
      else if k = old then []
      else cols_of k df)"
  unfolding cols_of_def rename_def using filter_key_rename [of old new k "cols df"] by simp




lemma single_take_rows [simp]: "single k (take_rows bs df) = single k df"
  by (simp add: single_def cols_of_take_rows)

lemma single_astype_str [simp]: "single k (astype_str key df) = single k df"
  by (simp add: single_def cols_of_astype_str)



subsection \<open>The first column of a label through the operations\<close>

lemma values_of_take_rows: "values_of k (take_rows bs df) = map_option (keep bs) (values_of k df)"
  by (simp add: values_of_cols_of cols_of_take_rows split: list.splits)

lemma values_of_astype_str:
  "values_of k (astype_str key df) =
     (if k = key then map_option (map (Txt \<circ> str_of)) (values_of k df) else values_of k df)"
  by (simp add: values_of_cols_of cols_of_astype_str split: list.splits)

lemma values_of_assign:
  "values_of k (assign key vs df) = (if k = key then Some vs else values_of k df)"
proof (cases "k = key \<and> key \<in> set (labels df)")
  case True
  then obtain ws where "values_of key df = Some ws" by (auto simp: labels_mem)
  then have "cols_of key df \<noteq> []" by (auto simp: values_of_cols_of split: list.splits)
  with True show ?thesis
    by (cases "cols_of key df") (simp_all add: values_of_cols_of cols_of_assign)
next
  case False
  then show ?thesis by (auto simp: values_of_cols_of cols_of_assign)
qed

lemma values_of_rename_other:
  "old \<noteq> new \<Longrightarrow> k \<noteq> old \<Longrightarrow> k \<noteq> new \<Longrightarrow> values_of k (rename old new df) = values_of k df"
  by (simp add: values_of_cols_of cols_of_rename)

lemma values_of_derive_bug_id_other:
  "k \<noteq> ''S.No'' \<Longrightarrow> k \<noteq> ''Bug ID'' \<Longrightarrow> values_of k (derive_bug_id df) = values_of k df"
  by (simp add: derive_bug_id_def values_of_rename_other values_of_assign)

lemma values_of_logic_level_issue_other:
  "k \<noteq> ''Logic-level Issue'' \<Longrightarrow> values_of k (logic_level_issue df) = values_of k df"
  by (simp add: logic_level_issue_def values_of_assign split: option.splits)

lemma values_of_logic_level_issue:
  "values_of ''Logic-level Issue'' (logic_level_issue df) =
     Some (case values_of ''Logical_Issue'' df of
             Some li \<Rightarrow> li
           | None \<Rightarrow> replicate (nrows df) (Txt ''N/A''))"
  by (simp add: logic_level_issue_def values_of_assign split: option.splits)

subsection \<open>The normalised table\<close>

lemma dropna_surviving:
  assumes "well_formed df" and "values_of key df = Some d"
  shows "dropna key df = take_rows (map (\<lambda>v. v \<noteq> Missing) d) df"
  using assms by (simp add: dropna_def notna_mask_single)

lemma rect_length:
  "well_formed df \<Longrightarrow> values_of key df = Some vs \<Longrightarrow> length vs = nrows df"
  by (auto simp: well_formed_def rect_def list_all_iff dest!: values_of_mem)

lemma nrows_normalize:
  assumes "well_formed df" and "values_of ''Details'' df = Some d"
  shows "nrows (normalize df) = length (filter (\<lambda>v. v \<noteq> Missing) d)"
proof -
  have "length (index df) = length d"
    using rect_length [OF assms] by (simp add: nrows_def)
  then show ?thesis
    using assms
    by (simp add: normalize_def dropna_surviving nrows_take_rows keep_notna length_surviving)
qed

lemma details_normalize:
  assumes "well_formed df" and "values_of ''Details'' df = Some d"
  shows "values_of ''Details'' (normalize df) = Some (map (Txt \<circ> str_of) (filter (\<lambda>v. v \<noteq> Missing) d))"
  using assms
  by (simp add: normalize_def dropna_surviving values_of_derive_bug_id_other values_of_astype_str
      values_of_take_rows keep_notna surviving_self)

lemma other_normalize:
  assumes "well_formed df" and "values_of ''Details'' df = Some d"
    and "k \<noteq> ''Details''" and "k \<noteq> ''S.No''" and "k \<noteq> ''Bug ID''"
  shows "values_of k (normalize df) = map_option (surviving d) (values_of k df)"
  using assms
  by (simp add: normalize_def dropna_surviving values_of_derive_bug_id_other values_of_astype_str
      values_of_take_rows keep_notna cong: option.map_cong)

subsection \<open>Classification\<close>

lemma row_max_Inr: "row_max r = Inr m \<longleftrightarrow> r \<noteq> [] \<and> m = Max (set r)"
proof (cases r)
  case Nil
  then show ?thesis by (simp add: row_max_def)
next
  case (Cons x xs)
  have "fold max xs x = Max (set (x # xs))" by (simp only: Max.set_eq_fold)
  with Cons show ?thesis by (auto simp: row_max_def)
qed

lemma max_axis1_Inr:
  "max_axis1 P = Inr probs \<longleftrightarrow> [] \<notin> set P \<and> probs = map (\<lambda>r. Max (set r)) P"
proof (induction P arbitrary: probs)
  case Nil
  then show ?case by auto
next
  case (Cons r P)
  show ?case
  proof (cases "row_max r")
    case (Inl e)
    then have "r = []" by (cases r) (simp_all add: row_max_def)
    with Inl show ?thesis by simp
  next
    case (Inr m)
    then have r: "r \<noteq> []" "m = Max (set r)" by (simp_all add: row_max_Inr)
    show ?thesis
    proof (cases "max_axis1 P")
      case (Inl e)
      with Cons.IH [of "map (\<lambda>r. Max (set r)) P"] have "[] \<in> set P" by auto
      with Inl Inr show ?thesis by simp
    next
      case ms: (Inr ms)
      with Cons.IH [of ms] have "[] \<notin> set P" "ms = map (\<lambda>r. Max (set r)) P" by auto
      with ms Inr r show ?thesis by auto
    qed
  qed
qed

lemma classify_Inr:
  "classify clf df = Inr df' \<longleftrightarrow>
     (\<exists>d X ps P. values_of ''Details'' df = Some d \<and> transform clf (map str_of d) = Inr X
        \<and> predict clf X = Inr ps \<and> predict_proba clf X = Inr P \<and> [] \<notin> set P
        \<and> length (predicted_category ps) = nrows df \<and> length P = nrows df
        \<and> df' = classified ps P df)"
  (is "?l \<longleftrightarrow> ?r")
proof
  assume ?l
  then obtain d where d: "values_of ''Details'' df = Some d"
    by (auto simp: classify_def column_def split: option.splits)
  from \<open>?l\<close> d obtain X where X: "transform clf (map str_of d) = Inr X"
    by (auto simp: classify_def column_def split: sum.splits)
  from \<open>?l\<close> d X obtain ps where ps: "predict clf X = Inr ps"
    by (auto simp: classify_def column_def split: sum.splits)
  from \<open>?l\<close> d X ps obtain P where P: "predict_proba clf X = Inr P"
    by (auto simp: classify_def column_def split: sum.splits)
  from \<open>?l\<close> d X ps P obtain probs where probs: "max_axis1 P = Inr probs"
    by (auto simp: classify_def column_def split: sum.splits)
  then have pr: "[] \<notin> set P" "probs = map (\<lambda>r. Max (set r)) P"
    by (simp_all add: max_axis1_Inr)
  from \<open>?l\<close> d X ps P probs
  have "length (predicted_category ps) = nrows df \<and> length probs = nrows df
        \<and> df' = logic_level_issue (assign ''Confidence Score'' (map (FloatV \<circ> round2) probs)
                     (assign ''Predicted Category'' (map Txt (predicted_category ps)) df))"
    by (auto simp: classify_def column_def set_list_def split: if_splits)
  with pr have "length (predicted_category ps) = nrows df" "length P = nrows df"
    "df' = classified ps P df"
    by (simp_all add: classified_def comp_def)
  with d X ps P pr show ?r by blast
next
  assume ?r
  then obtain d X ps P where h: "values_of ''Details'' df = Some d"
    "transform clf (map str_of d) = Inr X" "predict clf X = Inr ps" "predict_proba clf X = Inr P"
    "[] \<notin> set P" "length (predicted_category ps) = nrows df" "length P = nrows df"
    "df' = classified ps P df"
    by blast
  from h(5) have "max_axis1 P = Inr (map (\<lambda>r. Max (set r)) P)" by (simp add: max_axis1_Inr)
  with h show ?l
    by (simp add: classify_def column_def set_list_def classified_def comp_def)
qed

lemma nrows_classified [simp]: "nrows (classified ps P df) = nrows df"
  by (simp add: classified_def)

lemma values_of_classified_other:
  "k \<noteq> ''Predicted Category'' \<Longrightarrow> k \<noteq> ''Confidence Score'' \<Longrightarrow> k \<noteq> ''Logic-level Issue''
   \<Longrightarrow> values_of k (classified ps P df) = values_of k df"
  by (simp add: classified_def values_of_logic_level_issue_other values_of_assign)

lemma values_of_classified_category:
  "values_of ''Predicted Category'' (classified ps P df) = Some (map Txt (predicted_category ps))"
  by (simp add: classified_def values_of_logic_level_issue_other values_of_assign)

lemma values_of_classified_confidence:
  "values_of ''Confidence Score'' (classified ps P df) = Some (map (\<lambda>r. FloatV (round2 (Max (set r)))) P)"
  by (simp add: classified_def values_of_logic_level_issue_other values_of_assign)

lemma values_of_classified_logic:
  "values_of ''Logic-level Issue'' (classified ps P df) =
     Some (case values_of ''Logical_Issue'' df of
             Some li \<Rightarrow> li
           | None \<Rightarrow> replicate (nrows df) (Txt ''N/A''))"
  by (simp add: classified_def values_of_logic_level_issue values_of_assign split: option.splits)

subsection \<open>Charts and table\<close>

lemma select_table_cols:
  assumes "\<forall>k \<in> set table_cols. k \<in> set (labels df)"
  shows "select table_cols df = Inr (df\<lparr>cols := cols (shown_table df)\<rparr>)"
proof -
  have "filter (\<lambda>k. k \<notin> set (labels df)) table_cols = []"
    using assms by (simp add: filter_empty_conv)
  then show ?thesis
    by (simp add: select_def shown_table_def cols_of_def) (simp add: table_cols_def)
qed

lemma select_missing:
  assumes "\<not> (\<forall>k \<in> set table_cols. k \<in> set (labels df))"
  shows "\<exists>k. select table_cols df = Inl (KeyError k)"
proof -
  have "filter (\<lambda>k. k \<notin> set (labels df)) table_cols \<noteq> []"
    using assms by (simp add: filter_empty_conv)
  then show ?thesis
    by (cases "filter (\<lambda>k. k \<notin> set (labels df)) table_cols") (simp_all add: select_def)
qed

lemma report_no_bug_type:
  "values_of ''bug_type'' df = None \<Longrightarrow> report df = ([Markdown pie_heading], Some (KeyError ''bug_type''))"
  by (simp add: report_def column_def)

lemma report_no_logical_issue:
  "values_of ''bug_type'' df = Some bt \<Longrightarrow> values_of ''Logical_Issue'' df = None \<Longrightarrow>
   report df =
     ([Markdown pie_heading, Pyplot (value_counts bt), Markdown bar_heading],
      Some (KeyError ''Logical_Issue''))"
  by (simp add: report_def column_def)

lemma report_both:
  assumes "values_of ''bug_type'' df = Some bt" and "values_of ''Logical_Issue'' df = Some li"
    and "\<forall>k \<in> set table_cols. k \<in> set (labels df)"
  shows "report df =
     ([Markdown pie_heading, Pyplot (value_counts bt), Markdown bar_heading,
       BarChart (value_counts (keep (map is_yes li) bt)), Subheader table_heading,
       Dataframe (shown_table df)], None)"
  using assms select_table_cols [OF assms(3)]
  by (simp add: report_def column_def values_of_take_rows reset_index_def shown_table_def nrows_def)

lemma bug_id_present: "''Bug ID'' \<in> set (labels (derive_bug_id df))"
  by (auto simp: derive_bug_id_def labels_rename labels_assign image_iff)

lemma table_cols_present:
  assumes "''Details'' \<in> set (labels df)"
  shows "\<forall>k \<in> set table_cols. k \<in> set (labels (classified ps P (normalize df)))"
proof -
  let ?g = "normalize df"
  have "values_of ''Bug ID'' ?g \<noteq> None"
    using bug_id_present [of "astype_str ''Details'' (dropna ''Details'' df)"]
    by (simp add: values_of_None normalize_def)
  moreover have "values_of ''Details'' ?g \<noteq> None"
    using assms
    by (simp add: normalize_def values_of_derive_bug_id_other values_of_None dropna_def)
  ultimately show ?thesis
    by (simp add: table_cols_def labels_mem values_of_classified_other
        values_of_classified_category values_of_classified_confidence values_of_classified_logic)
qed

lemma filter_cols_of:
  "filter (\<lambda>c. fst c = k) (cols_of k' df) = (if k = k' then cols_of k df else [])"
  by (auto simp: cols_of_def filter_empty_conv)

lemma cols_of_shown_table:
  "cols_of k (shown_table df) = (if k \<in> set table_cols then cols_of k df else [])"
proof -
  have "cols_of k (shown_table df) =
          filter (\<lambda>c. fst c = k) (cols_of ''Bug ID'' df) @ filter (\<lambda>c. fst c = k) (cols_of ''Details'' df)
          @ filter (\<lambda>c. fst c = k) (cols_of ''Predicted Category'' df)
          @ filter (\<lambda>c. fst c = k) (cols_of ''Logic-level Issue'' df)
          @ filter (\<lambda>c. fst c = k) (cols_of ''Confidence Score'' df)"
    by (simp add: shown_table_def) (simp add: cols_of_def)
  then show ?thesis
    by (simp only: filter_cols_of) (auto simp: table_cols_def)
qed

lemma values_of_shown_table:
  "k \<in> set table_cols \<Longrightarrow> values_of k (shown_table df) = values_of k df"
  by (simp add: values_of_cols_of cols_of_shown_table)

lemma nrows_shown_table [simp]: "nrows (shown_table df) = nrows df"
  by (simp add: shown_table_def nrows_def)

subsection \<open>One upload\<close>

lemma process_loaded:
  assumes "load u = Inr df" and "''Details'' \<in> set (labels df)"
  shows "process clf u =
     (case classify clf (normalize df) of
        Inl e \<Rightarrow> ([Write columns_found (labels df)], Some e)
      | Inr df' \<Rightarrow> (case report df' of (shown, r) \<Rightarrow> (Write columns_found (labels df) # shown, r)))"
  using assms by (simp add: process_def split: sum.splits prod.splits)

lemma handle_upload_unclassified:
  assumes "load u = Inr df" and "''Details'' \<in> set (labels df)"
    and "classify clf (normalize df) = Inl e"
  shows "handle_upload clf u = [Write columns_found (labels df), Error (caught e)]"
  using assms by (simp add: handle_upload_def process_loaded)

lemma handle_upload_classified:
  assumes "load u = Inr df" and "well_formed df" and "values_of ''Details'' df = Some d"
    and "classify clf (normalize df) = Inr df'"
  shows "handle_upload clf u =
     Write columns_found (labels df) #
     (case values_of ''bug_type'' df of
        None \<Rightarrow> [Markdown pie_heading, Error (caught (KeyError ''bug_type''))]
      | Some bt \<Rightarrow>
          (case values_of ''Logical_Issue'' df of
             None \<Rightarrow> [Markdown pie_heading, Pyplot (value_counts (surviving d bt)), Markdown bar_heading,
                       Error (caught (KeyError ''Logical_Issue''))]
           | Some li \<Rightarrow> [Markdown pie_heading, Pyplot (value_counts (surviving d bt)), Markdown bar_heading,
                          BarChart (value_counts (keep (map is_yes (surviving d li)) (surviving d bt))),
                          Subheader table_heading, Dataframe (shown_table df')]))"
proof -
  from assms(4) obtain ps P where df': "df' = classified ps P (normalize df)"
    by (auto simp: classify_Inr)
  have mem: "''Details'' \<in> set (labels df)" using assms(3) by (auto simp: labels_mem)
  have bt: "values_of ''bug_type'' df' = map_option (surviving d) (values_of ''bug_type'' df)"
    using assms(2,3) by (simp add: df' values_of_classified_other other_normalize)
  have li: "values_of ''Logical_Issue'' df' = map_option (surviving d) (values_of ''Logical_Issue'' df)"
    using assms(2,3) by (simp add: df' values_of_classified_other other_normalize)
  have tc: "\<forall>k \<in> set table_cols. k \<in> set (labels df')"
    unfolding df' using mem by (rule table_cols_present)
  show ?thesis
  proof (cases "values_of ''bug_type'' df")
    case None
    with bt have "report df' = ([Markdown pie_heading], Some (KeyError ''bug_type''))"
      by (simp add: report_no_bug_type)
    with None assms(1,4) mem show ?thesis by (simp add: handle_upload_def process_loaded)
  next
    case (Some b)
    show ?thesis
    proof (cases "values_of ''Logical_Issue'' df")
      case None
      with bt li Some have "report df' =
        ([Markdown pie_heading, Pyplot (value_counts (surviving d b)), Markdown bar_heading],
         Some (KeyError ''Logical_Issue''))"
        by (simp add: report_no_logical_issue)
      with None Some assms(1,4) mem show ?thesis by (simp add: handle_upload_def process_loaded)
    next
      case l: (Some l)
      with bt li Some tc have "report df' =
        ([Markdown pie_heading, Pyplot (value_counts (surviving d b)), Markdown bar_heading,
          BarChart (value_counts (keep (map is_yes (surviving d l)) (surviving d b))),
          Subheader table_heading, Dataframe (shown_table df')], None)"
        by (simp add: report_both)
      with l Some assms(1,4) mem show ?thesis by (simp add: handle_upload_def process_loaded)
    qed
  qed
qed

text \<open>
  Details absent from the first parse and from the retry: the labels found and the
  explicit message are shown, and nothing else.
\<close>

lemma details_absent_twice:
  assumes "(if endswith (name u) ''.csv'' then read_csv u else read_excel u) = Inr direct"
    and "''Details'' \<notin> set (labels (strip_columns direct))"
    and "read_excel_skip2 u = Inr retry"
    and "''Details'' \<notin> set (labels (strip_columns retry))"
  shows "handle_upload clf u = [Write columns_found (labels (strip_columns retry)), Error missing_details]
         \<and> missing_details = cross_mark @ '' The uploaded file must contain a '' @ apostrophe @ ''Details'' @ apostrophe @ '' column.''"
  using assms by (simp add: handle_upload_def process_def load_def missing_details_def)

text \<open>The retry of a comma-separated file is a workbook read all the same.\<close>

lemma csv_retry_reads_workbook:
  assumes "endswith (name u) ''.csv''" and "read_csv u = Inr direct"
    and "''Details'' \<notin> set (labels (strip_columns direct))"
    and "read_excel_skip2 u = Inl e"
  shows "handle_upload clf u = [Error (caught e)]"
  using assms by (simp add: handle_upload_def process_def load_def)






subsection \<open>Counting\<close>

lemma count_list_Missing: "count_list d x + length (filter (\<lambda>v. v \<noteq> x) d) = length d"
  by (induction d) auto

lemma length_notna: "length (filter (\<lambda>v. v \<noteq> Missing) d) = length d - count_list d Missing"
  using count_list_Missing [of d Missing] by simp




lemma upto_as_upt: "map IntV [1..int n] = map (\<lambda>i. IntV (int i + 1)) [0..<n]"
proof (induction n)
  case 0
  then show ?case by simp
next
  case (Suc n)
  have "[1..int (Suc n)] = [1..int n] @ [int n + 1]"
    using upto_rec2 [of 1 "int n + 1"] by (simp add: add.commute)
  with Suc show ?case by simp
qed

subsection \<open>Rounding\<close>







subsection \<open>Rectangular tables\<close>

lemma length_keep_cong: "length xs = length ys \<Longrightarrow> length (keep bs xs) = length (keep bs ys)"
proof (induction bs arbitrary: xs ys)
  case Nil
  then show ?case by (simp add: keep_def)
next
  case (Cons b bs)
  show ?case
  proof (cases xs)
    case Nil
    with Cons.prems show ?thesis by (simp add: keep_def)
  next
    case xs: (Cons x xs')
    with Cons.prems obtain y ys' where ys: "ys = y # ys'" "length xs' = length ys'"
      by (cases ys) auto
    from Cons.IH [OF ys(2)] have "length (keep bs xs') = length (keep bs ys')" .
    with xs ys show ?thesis by (simp add: keep_def)
  qed
qed

lemma rect_take_rows: "rect df \<Longrightarrow> rect (take_rows bs df)"
  unfolding rect_def list_all_iff nrows_def take_rows_def
  by (auto intro: length_keep_cong)

lemma rect_astype_str: "rect df \<Longrightarrow> rect (astype_str key df)"
  unfolding rect_def list_all_iff nrows_def astype_str_def by auto

lemma rect_rename: "rect df \<Longrightarrow> rect (rename old new df)"
  unfolding rect_def list_all_iff nrows_def rename_def by auto

lemma rect_assign: "rect df \<Longrightarrow> length vs = nrows df \<Longrightarrow> rect (assign key vs df)"
  unfolding rect_def list_all_iff nrows_def assign_def by auto

lemma rect_derive_bug_id: "rect df \<Longrightarrow> rect (derive_bug_id df)"
  by (simp add: derive_bug_id_def rect_rename rect_assign)

lemma rect_normalize: "rect df \<Longrightarrow> rect (normalize df)"
  by (simp add: normalize_def dropna_def rect_derive_bug_id rect_astype_str rect_take_rows)

lemma rect_values_of: "rect df \<Longrightarrow> values_of key df = Some vs \<Longrightarrow> length vs = nrows df"
  by (auto simp: rect_def list_all_iff dest!: values_of_mem)

lemma rect_logic_level_issue: "rect df \<Longrightarrow> rect (logic_level_issue df)"
  by (auto simp: logic_level_issue_def rect_assign rect_values_of split: option.splits)

lemma rect_classified:
  "rect df \<Longrightarrow> length (predicted_category ps) = nrows df \<Longrightarrow> length P = nrows df \<Longrightarrow>
   rect (classified ps P df)"
  by (simp add: classified_def rect_logic_level_issue rect_assign)

lemma rect_shown_table: "rect df \<Longrightarrow> rect (shown_table df)"
  unfolding rect_def list_all_iff by (auto simp: shown_table_def cols_of_def nrows_def)

subsection \<open>Labels that stay single\<close>




subsection \<open>When a table is shown\<close>

lemma docs_normalize:
  assumes "well_formed df" and "values_of ''Details'' df = Some d"
    and "values_of ''Details'' (normalize df) = Some d'"
  shows "map str_of d' = map str_of (filter (\<lambda>v. v \<noteq> Missing) d)"
  using assms details_normalize [OF assms(1,2)] by (auto simp: comp_def)

lemma shown_dataframe:
  assumes "load u = Inr df" and "well_formed df" and "values_of ''Details'' df = Some d"
    and "Dataframe t \<in> set (handle_upload clf u)"
  obtains X ps P bt li where
    "transform clf (map str_of (filter (\<lambda>v. v \<noteq> Missing) d)) = Inr X"
    "predict clf X = Inr ps" "predict_proba clf X = Inr P" "[] \<notin> set P"
    "length (predicted_category ps) = length (filter (\<lambda>v. v \<noteq> Missing) d)"
    "length P = length (filter (\<lambda>v. v \<noteq> Missing) d)"
    "values_of ''bug_type'' df = Some bt" "values_of ''Logical_Issue'' df = Some li"
    "classify clf (normalize df) = Inr (classified ps P (normalize df))"
    "t = shown_table (classified ps P (normalize df))"
proof -
  have mem: "''Details'' \<in> set (labels df)" using assms(3) by (auto simp: labels_mem)
  show ?thesis
  proof (cases "classify clf (normalize df)")
    case (Inl e)
    with assms(1,4) mem show ?thesis by (simp add: handle_upload_unclassified)
  next
    case (Inr df')
    then obtain d' X ps P where c: "values_of ''Details'' (normalize df) = Some d'"
      "transform clf (map str_of d') = Inr X" "predict clf X = Inr ps" "predict_proba clf X = Inr P"
      "[] \<notin> set P" "length (predicted_category ps) = nrows (normalize df)"
      "length P = nrows (normalize df)" "df' = classified ps P (normalize df)"
      by (auto simp: classify_Inr)
    note run = handle_upload_classified [OF assms(1-3) Inr]
    from run assms(4) obtain bt where bt: "values_of ''bug_type'' df = Some bt"
      by (cases "values_of ''bug_type'' df") auto
    from run assms(4) bt obtain li where li: "values_of ''Logical_Issue'' df = Some li"
      by (cases "values_of ''Logical_Issue'' df") auto
    from run assms(4) bt li have t: "t = shown_table df'" by simp
    from c(2) docs_normalize [OF assms(2,3) c(1)]
    have X: "transform clf (map str_of (filter (\<lambda>v. v \<noteq> Missing) d)) = Inr X" by simp
    from c(6,7) nrows_normalize [OF assms(2,3)]
    have len: "length (predicted_category ps) = length (filter (\<lambda>v. v \<noteq> Missing) d)"
      "length P = length (filter (\<lambda>v. v \<noteq> Missing) d)" by simp_all
    from that [OF X c(3,4,5) len bt li] Inr c(8) t show ?thesis by simp
  qed
qed

lemma no_sno_after: "''S.No'' \<notin> set (labels (derive_bug_id g))"
  by (auto simp: derive_bug_id_def labels_rename labels_assign)




subsection \<open>Evaluating the sample inputs\<close>

lemma floor_rat_numeral_divide:
  "\<lfloor>(numeral a :: rat) / numeral b\<rfloor> = numeral a div numeral b"
  using floor_divide_of_int_eq [of "numeral a" "numeral b", where ?'a = rat] by simp

lemmas run_defs =
  handle_upload_def process_def load_def endswith_def strip_columns_def strip_def is_space_def
  labels_def normalize_def dropna_def notna_mask_def take_rows_def keep_def nrows_def
  astype_str_def derive_bug_id_def assign_def rename_def classify_def column_def values_of_def
  set_list_def row_max_def round2_def round_half_even_def logic_level_issue_def report_def
  value_counts_def is_yes_def lower_def lower_char_def select_def table_cols_def reset_index_def
  Let_def floor_rat_numeral_divide demo_classifier_def category_map_def upto.simps upt_rec
  str_int_def str_nat.simps digit_char_def


lemma gapped_run:
  "handle_upload demo_classifier gapped_xlsx =
     [Write columns_found [''Details'', ''bug_type'', ''Logical_Issue''], Markdown pie_heading,
      Pyplot [(Txt ''API'', 1), (Txt ''UI'', 1)], Markdown bar_heading,
      BarChart [(Txt ''API'', 1)], Subheader table_heading, Dataframe gapped_table]"
  by (simp add: run_defs gapped_xlsx_def gapped_def gapped_table_def)


lemma banner_workbook_run:
  "handle_upload demo_classifier banner_workbook = [Write columns_found [''Summary''], Error missing_details]"
  by (simp add: run_defs banner_workbook_def)

lemma unflagged_run:
  "handle_upload demo_classifier unflagged_csv =
     [Write columns_found [''Details'', ''bug_type''], Markdown pie_heading,
      Pyplot [(Txt ''API'', 1), (Txt ''UI'', 1)], Markdown bar_heading,
      Error (caught (KeyError ''Logical_Issue''))]"
  by (simp add: run_defs unflagged_csv_def unflagged_def)





lemma gapped_loaded: "load gapped_xlsx = Inr gapped"
  by (simp add: run_defs gapped_xlsx_def gapped_def)

lemma gapped_well_formed: "well_formed gapped"
  by (simp add: well_formed_def rect_def nrows_def labels_def gapped_def)

lemma gapped_columns:
  "values_of ''Details'' gapped = Some [Txt ''login fails'', Missing, IntV 404, Txt ''typo in footer'']"
  "values_of ''bug_type'' gapped = Some [Txt ''API'', Txt ''UI'', Missing, Txt ''UI'']"
  "values_of ''Logical_Issue'' gapped = Some [Txt ''YES'', Txt ''no'', Txt ''yes'', Missing]"
  by (simp_all add: values_of_def gapped_def)

lemma gapped_shown: "Dataframe gapped_table \<in> set (handle_upload demo_classifier gapped_xlsx)"
  by (simp add: gapped_run)


lemma unflagged_loaded: "load unflagged_csv = Inr unflagged"
  by (simp add: run_defs unflagged_csv_def unflagged_def)

lemma unflagged_well_formed: "well_formed unflagged"
  by (simp add: well_formed_def rect_def nrows_def labels_def unflagged_def)

lemma unflagged_columns:
  "values_of ''Details'' unflagged = Some [Txt ''500 on checkout'', Txt ''label overlaps'']"
  "values_of ''bug_type'' unflagged = Some [Txt ''API'', Txt ''UI'']"
  "''Logical_Issue'' \<notin> set (labels unflagged)"
  by (simp_all add: values_of_def labels_def unflagged_def)

lemma unflagged_classified: "\<exists>df'. classify demo_classifier (normalize unflagged) = Inr df'"
  by (simp add: run_defs unflagged_def)





section \<open>The claims\<close>

text \<open>
  Claim C1: a file in which Details is absent from the first parse and from the retry
  gets the explicit message that names the column, and nothing is predicted or drawn.
  This holds for a workbook (\<open>details_absent_twice\<close>). It fails for a comma-separated
  file: line 32 retries with \<open>pd.read_excel\<close> whatever the extension, the reader
  raises on text that is no workbook (\<open>csv_retry_reads_workbook\<close>), and the handler
  shows the generic message instead. The pipeline on \<open>summary_csv\<close>, a file with the
  single column Summary:
\<close>

theorem csv_without_details_generic_error:
  "handle_upload clf summary_csv = [Error (cross_mark @ '' Error: File is not a zip file'')]"
  by (simp add: handle_upload_def process_def load_def endswith_def strip_columns_def strip_def
      is_space_def labels_def summary_csv_def caught_def)





text \<open>
  Claim C4. The identifier column. With a column S.No, that column is relabelled Bug ID,
  its values and all others untouched. Without S.No and without Bug ID, a last column
  Bug ID is added that numbers the rows 1, 2, ..., N; after the rows without Details were
  dropped, N is the number of rows that survive (also when there are none). With a Bug ID
  and no S.No the table stays as it is, and deriving the identifier twice is the same as
  deriving it once.
\<close>

theorem bug_id_derivation:
  assumes "well_formed df" and "values_of ''Details'' df = Some d"
  shows "(''S.No'' \<in> set (labels g) \<longrightarrow>
            labels (derive_bug_id g) = map (\<lambda>l. if l = ''S.No'' then ''Bug ID'' else l) (labels g)
            \<and> map snd (cols (derive_bug_id g)) = map snd (cols g) \<and> index (derive_bug_id g) = index g)
         \<and> (''S.No'' \<notin> set (labels g) \<and> ''Bug ID'' \<notin> set (labels g) \<longrightarrow>
            derive_bug_id g = g\<lparr>cols := cols g @ [(''Bug ID'', map (\<lambda>i. IntV (int i + 1)) [0..<nrows g])]\<rparr>)
         \<and> (''S.No'' \<notin> set (labels g) \<and> ''Bug ID'' \<in> set (labels g) \<longrightarrow> derive_bug_id g = g)
         \<and> derive_bug_id (derive_bug_id g) = derive_bug_id g
         \<and> (''S.No'' \<notin> set (labels df) \<and> ''Bug ID'' \<notin> set (labels df) \<longrightarrow>
            values_of ''Bug ID'' (normalize df) =
              Some (map (\<lambda>i. IntV (int i + 1)) [0..<length (filter (\<lambda>v. v \<noteq> Missing) d)])
            \<and> nrows (normalize df) = length (filter (\<lambda>v. v \<noteq> Missing) d))"
proof -
  have a: "''S.No'' \<in> set (labels g) \<longrightarrow>
            labels (derive_bug_id g) = map (\<lambda>l. if l = ''S.No'' then ''Bug ID'' else l) (labels g)
            \<and> map snd (cols (derive_bug_id g)) = map snd (cols g) \<and> index (derive_bug_id g) = index g"
    by (simp add: derive_bug_id_def labels_rename) (simp add: rename_def comp_def if_distrib)
  have b: "''S.No'' \<notin> set (labels g) \<and> ''Bug ID'' \<notin> set (labels g) \<longrightarrow>
            derive_bug_id g = g\<lparr>cols := cols g @ [(''Bug ID'', map (\<lambda>i. IntV (int i + 1)) [0..<nrows g])]\<rparr>"
    by (simp add: derive_bug_id_def assign_def upto_as_upt)
  have c: "''S.No'' \<notin> set (labels g) \<and> ''Bug ID'' \<in> set (labels g) \<longrightarrow> derive_bug_id g = g"
    by (simp add: derive_bug_id_def)
  have i: "derive_bug_id (derive_bug_id g) = derive_bug_id g"
    using no_sno_after [of g] bug_id_present [of g] by (simp add: derive_bug_id_def [of "derive_bug_id g"])
  have n: "''S.No'' \<notin> set (labels df) \<and> ''Bug ID'' \<notin> set (labels df) \<longrightarrow>
            values_of ''Bug ID'' (normalize df) =
              Some (map (\<lambda>i. IntV (int i + 1)) [0..<length (filter (\<lambda>v. v \<noteq> Missing) d)])
            \<and> nrows (normalize df) = length (filter (\<lambda>v. v \<noteq> Missing) d)"
  proof
    assume no: "''S.No'' \<notin> set (labels df) \<and> ''Bug ID'' \<notin> set (labels df)"
    let ?g = "astype_str ''Details'' (dropna ''Details'' df)"
    have nr: "nrows (normalize df) = length (filter (\<lambda>v. v \<noteq> Missing) d)"
      using assms by (rule nrows_normalize)
    then have "nrows ?g = length (filter (\<lambda>v. v \<noteq> Missing) d)" by (simp add: normalize_def)
    moreover from no have "derive_bug_id ?g = assign ''Bug ID'' (map IntV [1..int (nrows ?g)]) ?g"
      by (simp add: derive_bug_id_def dropna_def)
    ultimately have "values_of ''Bug ID'' (normalize df) =
        Some (map (\<lambda>i. IntV (int i + 1)) [0..<length (filter (\<lambda>v. v \<noteq> Missing) d)])"
      by (simp add: normalize_def values_of_assign upto_as_upt)
    with nr show "values_of ''Bug ID'' (normalize df) =
              Some (map (\<lambda>i. IntV (int i + 1)) [0..<length (filter (\<lambda>v. v \<noteq> Missing) d)])
            \<and> nrows (normalize df) = length (filter (\<lambda>v. v \<noteq> Missing) d)" by simp
  qed
  from a b c i n show ?thesis by simp
qed

theorem bug_id_derivation_witness:
  "well_formed gapped
   \<and> values_of ''Details'' gapped = Some [Txt ''login fails'', Missing, IntV 404, Txt ''typo in footer'']
   \<and> ''S.No'' \<notin> set (labels gapped) \<and> ''Bug ID'' \<notin> set (labels gapped)
   \<and> values_of ''Bug ID'' (normalize gapped) = Some [IntV 1, IntV 2, IntV 3]
   \<and> nrows (normalize gapped) = 3
   \<and> ''S.No'' \<in> set (labels tracked)
   \<and> labels (derive_bug_id tracked) = [''Bug ID'', ''Details'', ''Bug ID'', ''bug_type'', ''Logical_Issue'']
   \<and> derive_bug_id (derive_bug_id tracked) = derive_bug_id tracked
   \<and> ''Bug ID'' \<in> set (labels gapped_table) \<and> ''S.No'' \<notin> set (labels gapped_table)
   \<and> derive_bug_id gapped_table = gapped_table"
proof -
  note g = bug_id_derivation [OF gapped_well_formed gapped_columns(1)]
  have no: "''S.No'' \<notin> set (labels gapped)" "''Bug ID'' \<notin> set (labels gapped)"
    by (simp_all add: labels_def gapped_def)
  from g [of gapped] no have "values_of ''Bug ID'' (normalize gapped) =
              Some (map (\<lambda>i. IntV (int i + 1)) [0..<length (filter (\<lambda>v. v \<noteq> Missing) [Txt ''login fails'', Missing, IntV 404, Txt ''typo in footer''])])"
    and "nrows (normalize gapped) = length (filter (\<lambda>v. v \<noteq> Missing) [Txt ''login fails'', Missing, IntV 404, Txt ''typo in footer''])"
    by blast+
  then have 1: "values_of ''Bug ID'' (normalize gapped) = Some [IntV 1, IntV 2, IntV 3]"
    and 2: "nrows (normalize gapped) = 3"
    by (simp_all add: upt_rec)
  have s: "''S.No'' \<in> set (labels tracked)" by (simp add: labels_def tracked_def)
  with g [of tracked] have "labels (derive_bug_id tracked) = map (\<lambda>l. if l = ''S.No'' then ''Bug ID'' else l) (labels tracked)"
    by blast
  then have 3: "labels (derive_bug_id tracked) = [''Bug ID'', ''Details'', ''Bug ID'', ''bug_type'', ''Logical_Issue'']"
    by (simp add: labels_def tracked_def)
  from g [of tracked] have 4: "derive_bug_id (derive_bug_id tracked) = derive_bug_id tracked" by blast
  have t: "''Bug ID'' \<in> set (labels gapped_table)" "''S.No'' \<notin> set (labels gapped_table)"
    by (simp_all add: labels_def gapped_table_def)
  with g [of gapped_table] have 5: "derive_bug_id gapped_table = gapped_table" by blast
  from gapped_well_formed gapped_columns(1) no 1 2 s 3 4 t 5 show ?thesis by simp
qed





text \<open>
  Claim C7. Rows whose Details is missing take no further part: the normalised table has
  the rows of the input minus those, every other column is cut down to the surviving rows
  in their order, the vectorizer receives the text of the surviving Details only, and the
  table shown has one value in every column for each surviving row, renumbered from 0,
  with the surviving Details in the order of the input.
\<close>

theorem null_details_dropped:
  assumes "load u = Inr df" and "well_formed df" and "values_of ''Details'' df = Some d"
  shows "nrows (normalize df) = nrows df - count_list d Missing
         \<and> values_of ''Details'' (normalize df) = Some (map (Txt \<circ> str_of) (filter (\<lambda>v. v \<noteq> Missing) d))
         \<and> (\<forall>k vs. k \<noteq> ''Details'' \<and> k \<noteq> ''S.No'' \<and> k \<noteq> ''Bug ID'' \<and> values_of k df = Some vs \<longrightarrow>
               values_of k (normalize df) = Some (surviving d vs))
         \<and> (\<forall>df'. classify clf (normalize df) = Inr df' \<longrightarrow>
               (\<exists>X. transform clf (map str_of (filter (\<lambda>v. v \<noteq> Missing) d)) = Inr X))
         \<and> (\<forall>t. Dataframe t \<in> set (handle_upload clf u) \<longrightarrow>
               nrows t = nrows df - count_list d Missing \<and> index t = [0..<nrows t] \<and> rect t
               \<and> values_of ''Details'' t = Some (map (Txt \<circ> str_of) (filter (\<lambda>v. v \<noteq> Missing) d)))"
proof -
  have len: "length d = nrows df" using assms(2,3) by (rule rect_length)
  have n: "nrows (normalize df) = nrows df - count_list d Missing"
    using nrows_normalize [OF assms(2,3)] by (simp add: length_notna len)
  have det: "values_of ''Details'' (normalize df) = Some (map (Txt \<circ> str_of) (filter (\<lambda>v. v \<noteq> Missing) d))"
    using assms(2,3) by (rule details_normalize)
  have oth: "\<forall>k vs. k \<noteq> ''Details'' \<and> k \<noteq> ''S.No'' \<and> k \<noteq> ''Bug ID'' \<and> values_of k df = Some vs \<longrightarrow>
               values_of k (normalize df) = Some (surviving d vs)"
    using other_normalize [OF assms(2,3)] by simp
  have docs: "\<forall>df'. classify clf (normalize df) = Inr df' \<longrightarrow>
               (\<exists>X. transform clf (map str_of (filter (\<lambda>v. v \<noteq> Missing) d)) = Inr X)"
  proof (intro allI impI)
    fix df' assume "classify clf (normalize df) = Inr df'"
    then obtain d' X where "values_of ''Details'' (normalize df) = Some d'"
      "transform clf (map str_of d') = Inr X"
      by (auto simp: classify_Inr)
    with docs_normalize [OF assms(2,3)] show "\<exists>X. transform clf (map str_of (filter (\<lambda>v. v \<noteq> Missing) d)) = Inr X"
      by auto
  qed
  have tab: "\<forall>t. Dataframe t \<in> set (handle_upload clf u) \<longrightarrow>
               nrows t = nrows df - count_list d Missing \<and> index t = [0..<nrows t] \<and> rect t
               \<and> values_of ''Details'' t = Some (map (Txt \<circ> str_of) (filter (\<lambda>v. v \<noteq> Missing) d))"
  proof (intro allI impI)
    fix t assume "Dataframe t \<in> set (handle_upload clf u)"
    with assms obtain ps P where
      l: "length (predicted_category ps) = length (filter (\<lambda>v. v \<noteq> Missing) d)"
         "length P = length (filter (\<lambda>v. v \<noteq> Missing) d)"
      and t: "t = shown_table (classified ps P (normalize df))"
      by (rule shown_dataframe)
    have r: "rect (normalize df)" using assms(2) by (simp add: well_formed_def rect_normalize)
    have "rect t"
      unfolding t using r l nrows_normalize [OF assms(2,3)]
      by (simp add: rect_shown_table rect_classified)
    moreover have "nrows t = nrows df - count_list d Missing" by (simp add: t n)
    moreover have "index t = [0..<nrows t]" by (simp add: t shown_table_def nrows_def)
    moreover have "values_of ''Details'' t = Some (map (Txt \<circ> str_of) (filter (\<lambda>v. v \<noteq> Missing) d))"
      by (simp add: t values_of_shown_table table_cols_def values_of_classified_other det)
    ultimately show "nrows t = nrows df - count_list d Missing \<and> index t = [0..<nrows t] \<and> rect t
               \<and> values_of ''Details'' t = Some (map (Txt \<circ> str_of) (filter (\<lambda>v. v \<noteq> Missing) d))"
      by simp
  qed
  from n det oth docs tab show ?thesis by simp
qed

theorem null_details_dropped_witness:
  "load gapped_xlsx = Inr gapped \<and> well_formed gapped
   \<and> values_of ''Details'' gapped = Some [Txt ''login fails'', Missing, IntV 404, Txt ''typo in footer'']
   \<and> nrows (normalize gapped) = 3
   \<and> values_of ''bug_type'' (normalize gapped) = Some [Txt ''API'', Missing, Txt ''UI'']
   \<and> Dataframe gapped_table \<in> set (handle_upload demo_classifier gapped_xlsx)
   \<and> nrows gapped_table = 3 \<and> index gapped_table = [0, 1, 2] \<and> rect gapped_table
   \<and> values_of ''Details'' gapped_table = Some [Txt ''login fails'', Txt ''404'', Txt ''typo in footer'']"
proof -
  note c = null_details_dropped [OF gapped_loaded gapped_well_formed gapped_columns(1), of demo_classifier]
  from c have n: "nrows (normalize gapped) = 3" by (simp add: nrows_def gapped_def)
  from c gapped_columns(2) have b: "values_of ''bug_type'' (normalize gapped) = Some [Txt ''API'', Missing, Txt ''UI'']"
    by (simp add: surviving_def)
  from c gapped_shown
  have t1: "nrows gapped_table = nrows gapped - count_list [Txt ''login fails'', Missing, IntV 404, Txt ''typo in footer''] Missing"
    and t2: "rect gapped_table"
    and t3: "values_of ''Details'' gapped_table = Some (map (Txt \<circ> str_of) (filter (\<lambda>v. v \<noteq> Missing) [Txt ''login fails'', Missing, IntV 404, Txt ''typo in footer'']))"
    by blast+
  from t1 have t1': "nrows gapped_table = 3" by (simp add: nrows_def gapped_def)
  from t3 have t3': "values_of ''Details'' gapped_table = Some [Txt ''login fails'', Txt ''404'', Txt ''typo in footer'']"
    by (simp add: str_int_def str_nat.simps digit_char_def)
  have t4: "index gapped_table = [0, 1, 2]" by (simp add: gapped_table_def)
  from gapped_loaded gapped_well_formed gapped_columns(1) n b gapped_shown t1' t2 t3' t4 show ?thesis by simp
qed

text \<open>
  Claim C8. The column Logic-level Issue. When the file has a column Logical\_Issue, the
  new column holds its values for the surviving rows, unchanged, in the working table and
  in the table shown. When the file has none, every row of the working table gets N/A.
\<close>

theorem logic_level_issue_column:
  assumes "load u = Inr df" and "well_formed df" and "values_of ''Details'' df = Some d"
  shows "(\<forall>li df'. values_of ''Logical_Issue'' df = Some li \<and> classify clf (normalize df) = Inr df' \<longrightarrow>
            values_of ''Logic-level Issue'' df' = Some (surviving d li))
         \<and> (\<forall>li t. values_of ''Logical_Issue'' df = Some li \<and> Dataframe t \<in> set (handle_upload clf u) \<longrightarrow>
            values_of ''Logic-level Issue'' t = Some (surviving d li))
         \<and> (\<forall>df'. ''Logical_Issue'' \<notin> set (labels df) \<and> classify clf (normalize df) = Inr df' \<longrightarrow>
            values_of ''Logic-level Issue'' df' = Some (replicate (nrows df') (Txt ''N/A'')))"
proof -
  have li: "values_of ''Logical_Issue'' (normalize df) = map_option (surviving d) (values_of ''Logical_Issue'' df)"
    using assms(2,3) by (simp add: other_normalize)
  have a: "\<forall>li df'. values_of ''Logical_Issue'' df = Some li \<and> classify clf (normalize df) = Inr df' \<longrightarrow>
            values_of ''Logic-level Issue'' df' = Some (surviving d li)"
    using li by (auto simp: classify_Inr values_of_classified_logic)
  have b: "\<forall>li t. values_of ''Logical_Issue'' df = Some li \<and> Dataframe t \<in> set (handle_upload clf u) \<longrightarrow>
            values_of ''Logic-level Issue'' t = Some (surviving d li)"
  proof (intro allI impI)
    fix l t assume h: "values_of ''Logical_Issue'' df = Some l \<and> Dataframe t \<in> set (handle_upload clf u)"
    with assms obtain ps P where "t = shown_table (classified ps P (normalize df))"
      by (auto elim: shown_dataframe)
    with li h show "values_of ''Logic-level Issue'' t = Some (surviving d l)"
      by (simp add: values_of_shown_table table_cols_def values_of_classified_logic)
  qed
  have c: "\<forall>df'. ''Logical_Issue'' \<notin> set (labels df) \<and> classify clf (normalize df) = Inr df' \<longrightarrow>
            values_of ''Logic-level Issue'' df' = Some (replicate (nrows df') (Txt ''N/A''))"
    using li by (auto simp: classify_Inr values_of_classified_logic values_of_None [symmetric])
  from a b c show ?thesis by simp
qed

theorem logic_level_issue_column_witness:
  "load gapped_xlsx = Inr gapped \<and> well_formed gapped
   \<and> values_of ''Details'' gapped = Some [Txt ''login fails'', Missing, IntV 404, Txt ''typo in footer'']
   \<and> values_of ''Logical_Issue'' gapped = Some [Txt ''YES'', Txt ''no'', Txt ''yes'', Missing]
   \<and> Dataframe gapped_table \<in> set (handle_upload demo_classifier gapped_xlsx)
   \<and> values_of ''Logic-level Issue'' gapped_table = Some [Txt ''YES'', Txt ''yes'', Missing]
   \<and> load unflagged_csv = Inr unflagged \<and> well_formed unflagged
   \<and> values_of ''Details'' unflagged = Some [Txt ''500 on checkout'', Txt ''label overlaps'']
   \<and> ''Logical_Issue'' \<notin> set (labels unflagged)
   \<and> (\<exists>df'. classify demo_classifier (normalize unflagged) = Inr df'
          \<and> values_of ''Logic-level Issue'' df' = Some [Txt ''N/A'', Txt ''N/A''])"
proof -
  note g = logic_level_issue_column [OF gapped_loaded gapped_well_formed gapped_columns(1), of demo_classifier]
  note f = logic_level_issue_column [OF unflagged_loaded unflagged_well_formed unflagged_columns(1), of demo_classifier]
  from g gapped_columns(3) gapped_shown
  have "values_of ''Logic-level Issue'' gapped_table =
          Some (surviving [Txt ''login fails'', Missing, IntV 404, Txt ''typo in footer''] [Txt ''YES'', Txt ''no'', Txt ''yes'', Missing])"
    by blast
  then have 1: "values_of ''Logic-level Issue'' gapped_table = Some [Txt ''YES'', Txt ''yes'', Missing]"
    by (simp add: surviving_def)
  from unflagged_classified obtain df' where c: "classify demo_classifier (normalize unflagged) = Inr df'" ..
  then have "nrows df' = nrows (normalize unflagged)" by (auto simp: classify_Inr)
  then have n: "nrows df' = 2" by (simp add: run_defs unflagged_def)
  from f unflagged_columns(3) c have "values_of ''Logic-level Issue'' df' = Some (replicate (nrows df') (Txt ''N/A''))"
    by blast
  with n have "values_of ''Logic-level Issue'' df' = Some [Txt ''N/A'', Txt ''N/A'']"
    by (simp add: numeral_2_eq_2)
  with c have 2: "\<exists>df'. classify demo_classifier (normalize unflagged) = Inr df'
          \<and> values_of ''Logic-level Issue'' df' = Some [Txt ''N/A'', Txt ''N/A'']" by blast
  from gapped_loaded gapped_well_formed gapped_columns(1,3) gapped_shown 1
    unflagged_loaded unflagged_well_formed unflagged_columns(1,3) 2
  show ?thesis by simp
qed





end
